theory Spec2Isabelle
  imports Main
begin

section \<open>Documents and collections\<close>

text \<open>
  The backend keeps three Mongoose collections: permissions, roles and users
  (models \<^verbatim>\<open>Permission.js\<close>, \<^verbatim>\<open>Role.js\<close>, \<^verbatim>\<open>User.js\<close>).
  An \<^verbatim>\<open>ObjectId\<close> is modelled by the string \<^verbatim>\<open>toString()\<close> gives for it:
  24 hexadecimal digits, the letters in lower case. Fields that no operation below reads
  (descriptions, timestamps, \<^verbatim>\<open>createdBy\<close>, the e-mail and reset tokens) are left out.
  Times are milliseconds since the epoch, as \<^verbatim>\<open>Date.now()\<close> gives them.
\<close>

type_synonym objectId = string

record permission =
  perm_id :: objectId
  perm_name :: string
  perm_resource :: string
  perm_action :: string

record role =
  role_id :: objectId
  role_name :: string
  role_permissions :: "objectId list"
  isSystemRole :: bool
  role_isActive :: bool

record user =
  user_id :: objectId
  email :: string
  password :: string
  user_role :: objectId
  granted :: "objectId list"
  revoked :: "objectId list"
  isActive :: bool
  loginAttempts :: int
  lockUntil :: "int option"
  lastLogin :: "int option"

record db =
  db_users :: "user list"
  db_roles :: "role list"
  db_permissions :: "permission list"

text \<open>
  A populated document: Mongoose's \<^verbatim>\<open>populate\<close> replaces a reference by the document
  it names. A single reference with no document becomes \<^verbatim>\<open>null\<close>; in an array of
  references the entries with no document are dropped.
\<close>

record populated_role =
  prole_id :: objectId
  prole_name :: string
  prole_permissions :: "permission list"
  prole_isSystemRole :: bool
  prole_isActive :: bool

record populated_user =
  raw :: user
  role :: "populated_role option"
  cp_granted :: "permission list"
  cp_revoked :: "permission list"

definition findPermission :: "db \<Rightarrow> objectId \<Rightarrow> permission option" where
  "findPermission d i = find (\<lambda>p. perm_id p = i) (db_permissions d)"

definition populatePermissions :: "db \<Rightarrow> objectId list \<Rightarrow> permission list" where
  "populatePermissions d ids = List.map_filter (findPermission d) ids"

definition populateRole :: "db \<Rightarrow> objectId \<Rightarrow> populated_role option" where
  "populateRole d i =
     (case find (\<lambda>r. role_id r = i) (db_roles d) of
        None \<Rightarrow> None
      | Some r \<Rightarrow> Some \<lparr> prole_id = role_id r, prole_name = role_name r,
                         prole_permissions = populatePermissions d (role_permissions r),
                         prole_isSystemRole = isSystemRole r,
                         prole_isActive = role_isActive r \<rparr>)"

definition populate :: "db \<Rightarrow> user \<Rightarrow> populated_user" where
  "populate d u =
     \<lparr> raw = u, role = populateRole d (user_role u),
       cp_granted = populatePermissions d (granted u),
       cp_revoked = populatePermissions d (revoked u) \<rparr>"

section \<open>The permission resolver\<close>

text \<open>
  \<^verbatim>\<open>userSchema.methods.getAllPermissions\<close> (User.js): populate the role with its
  permissions and both override lists, start from the role's permissions
  (\<^verbatim>\<open>this.role?.permissions || []\<close>), push every granted permission whose \<^verbatim>\<open>_id\<close> is
  not there yet, then filter out every permission whose \<^verbatim>\<open>_id\<close> is in the revoked list.
\<close>

definition pushGranted :: "permission list \<Rightarrow> permission \<Rightarrow> permission list" where
  "pushGranted allPermissions permission =
     (if \<not> list_ex (\<lambda>p. perm_id p = perm_id permission) allPermissions
      then allPermissions @ [permission] else allPermissions)"

definition getAllPermissions :: "db \<Rightarrow> user \<Rightarrow> permission list" where
  "getAllPermissions d this =
     (let p = populate d this;
          rolePermissions = (case role p of None \<Rightarrow> [] | Some r \<Rightarrow> prole_permissions r);
          grantedPermissions = cp_granted p;
          revokedPermissions = cp_revoked p;
          allPermissions = foldl pushGranted rolePermissions grantedPermissions
      in filter (\<lambda>permission.
                   \<not> list_ex (\<lambda>r. perm_id r = perm_id permission) revokedPermissions)
           allPermissions)"

definition hasPermission :: "db \<Rightarrow> user \<Rightarrow> string \<Rightarrow> bool" where
  "hasPermission d this permissionName =
     list_ex (\<lambda>permission. perm_name permission = permissionName) (getAllPermissions d this)"


section \<open>Strings, requests and responses\<close>

text \<open>
  Strings are ASCII. The JavaScript built-ins the handlers call are written out:
  \<^verbatim>\<open>String.prototype.split\<close> with a one-character separator, \<^verbatim>\<open>Array.prototype.join\<close>,
  \<^verbatim>\<open>startsWith\<close>, \<^verbatim>\<open>toLowerCase\<close>, \<^verbatim>\<open>trim\<close> and the template literal's rendering of
  a length.
\<close>

definition isSpace :: "char \<Rightarrow> bool" where
  "isSpace c = (c \<in> set [CHR 0x09, CHR 0x0A, CHR 0x0B, CHR 0x0C, CHR 0x0D, CHR '' ''])"

definition trim :: "string \<Rightarrow> string" where
  "trim s = rev (dropWhile isSpace (rev (dropWhile isSpace s)))"

definition toLowerCaseChar :: "char \<Rightarrow> char" where
  "toLowerCaseChar c =
     (case map_of (zip ''ABCDEFGHIJKLMNOPQRSTUVWXYZ'' ''abcdefghijklmnopqrstuvwxyz'') c of
        None \<Rightarrow> c
      | Some l \<Rightarrow> l)"

definition toLowerCase :: "string \<Rightarrow> string" where
  "toLowerCase s = map toLowerCaseChar s"




fun join :: "string \<Rightarrow> string list \<Rightarrow> string" where
  "join sep [] = []"
| "join sep [x] = x"
| "join sep (x # y # ys) = x @ sep @ join sep (y # ys)"

fun showNat :: "nat \<Rightarrow> string" where
  "showNat n =
     (if n < 10 then [''0123456789'' ! n]
      else showNat (n div 10) @ [''0123456789'' ! (n mod 10)])"

text \<open>
  A JSON response: the status and the body's \<^verbatim>\<open>success\<close> and \<^verbatim>\<open>message\<close>; the two
  lists are the extra fields of the permission middleware's 403 body. The \<^verbatim>\<open>data\<close> of a
  success body is left out.
\<close>

record response =
  status :: nat
  success :: bool
  message :: string
  res_requiredPermissions :: "string list option"
  res_userPermissions :: "string list option"

definition sendErrorResponse :: "nat \<Rightarrow> string \<Rightarrow> response" where
  "sendErrorResponse statusCode msg =
     \<lparr> status = statusCode, success = False, message = msg,
       res_requiredPermissions = None, res_userPermissions = None \<rparr>"

definition sendSuccessResponse :: "nat \<Rightarrow> string \<Rightarrow> response" where
  "sendSuccessResponse statusCode msg =
     \<lparr> status = statusCode, success = True, message = msg,
       res_requiredPermissions = None, res_userPermissions = None \<rparr>"

record permission_check =
  pc_requiredPermissions :: "string list"
  pc_userPermissions :: "string list"
  accessGranted :: bool

text \<open>
  The part of an Express request the middleware reads and writes: the
  \<^verbatim>\<open>Authorization\<close> header, the \<^verbatim>\<open>token\<close> cookie, \<^verbatim>\<open>req.user\<close> and
  \<^verbatim>\<open>req.permissionCheck\<close>. A middleware either calls \<^verbatim>\<open>next()\<close> on the request as it
  left it, or sends a response. Beside its result a handler gives the list of the
  \<^verbatim>\<open>User\<close> methods it called, in order.
\<close>

record request =
  authorization :: "string option"
  cookieToken :: "string option"
  req_user :: "populated_user option"
  permissionCheck :: "permission_check option"

datatype result = Next request | Respond response

datatype call = GetAllPermissions | ComparePassword | IncLoginAttempts | ResetLoginAttempts

section \<open>The permission middleware\<close>

text \<open>
  \<^verbatim>\<open>requirePermissions(requiredPermissions, options)\<close> (middleware/rbac.js). The first
  argument is one permission name or an array of them; the options default to
  \<^verbatim>\<open>requireAll = false\<close>, \<^verbatim>\<open>allowSuperAdmin = true\<close>, \<^verbatim>\<open>customErrorMessage = null\<close>.
  The \<^verbatim>\<open>catch\<close> branch (status 500) answers an exception of the resolver; the resolver
  modelled here raises none, a failure of the database being outside the model.
\<close>

datatype required = One string | Many "string list"

record options =
  requireAll :: bool
  allowSuperAdmin :: bool
  customErrorMessage :: "string option"

definition defaultOptions :: options where
  "defaultOptions = \<lparr> requireAll = False, allowSuperAdmin = True, customErrorMessage = None \<rparr>"

definition toArray :: "required \<Rightarrow> string list" where
  "toArray requiredPermissions =
     (case requiredPermissions of One p \<Rightarrow> [p] | Many ps \<Rightarrow> ps)"

definition isSuperAdmin :: "populated_user \<Rightarrow> bool" where
  \<comment> \<open>\<^verbatim>\<open>req.user.role && req.user.role.name === 'SuperAdmin'\<close>\<close>
  "isSuperAdmin u = (case role u of None \<Rightarrow> False | Some r \<Rightarrow> prole_name r = ''SuperAdmin'')"

definition deniedMessage :: "options \<Rightarrow> string list \<Rightarrow> string" where
  "deniedMessage opts permissions =
     (case customErrorMessage opts of
        Some m \<Rightarrow> if m \<noteq> [] then m
                  else ''Access denied. Required permission''
                       @ (if length permissions > 1 then ''s'' else []) @ '': ''
                       @ join '', '' permissions
      | None \<Rightarrow> ''Access denied. Required permission''
                @ (if length permissions > 1 then ''s'' else []) @ '': ''
                @ join '', '' permissions)"

definition requirePermissions ::
  "required \<Rightarrow> options \<Rightarrow> db \<Rightarrow> request \<Rightarrow> result \<times> call list" where
  "requirePermissions requiredPermissions opts d req =
     (case req_user req of
        None \<Rightarrow>
          (Respond (sendErrorResponse 401 ''Authentication required to access this resource.''), [])
      | Some u \<Rightarrow>
          (let permissions = toArray requiredPermissions in
           if allowSuperAdmin opts \<and> isSuperAdmin u then (Next req, [])
           else
             (let userPermissions = getAllPermissions d (raw u);
                  userPermissionNames = map perm_name userPermissions;
                  hasAccess =
                    (if requireAll opts
                     then list_all (\<lambda>permission. permission \<in> set userPermissionNames) permissions
                     else list_ex (\<lambda>permission. permission \<in> set userPermissionNames) permissions)
              in if \<not> hasAccess
                 then (Respond \<lparr> status = 403, success = False,
                                  message = deniedMessage opts permissions,
                                  res_requiredPermissions = Some permissions,
                                  res_userPermissions = Some userPermissionNames \<rparr>,
                       [GetAllPermissions])
                 else (Next (req\<lparr> permissionCheck :=
                              Some \<lparr> pc_requiredPermissions = permissions,
                                     pc_userPermissions = userPermissionNames,
                                     accessGranted = True \<rparr> \<rparr>),
                       [GetAllPermissions]))))"


section \<open>Object ids in requests and tokens\<close>

text \<open>
  Mongoose casts a string to an \<^verbatim>\<open>ObjectId\<close> where a query or an array of references
  takes it: 24 hexadecimal digits in either case give the id, whose \<^verbatim>\<open>toString()\<close> is
  in lower case; any other string raises \<^verbatim>\<open>CastError\<close>. \<^verbatim>\<open>User.findById\<close> is such a
  query: \<open>findById\<close> below is its result when the cast succeeds, and a caller that does
  not validate the string first has the \<^verbatim>\<open>CastError\<close> branch written out.
\<close>

definition isHexDigit :: "char \<Rightarrow> bool" where
  "isHexDigit c = (c \<in> set ''0123456789abcdefABCDEF'')"

definition isValidObjectId :: "string \<Rightarrow> bool" where
  \<comment> \<open>\<^verbatim>\<open>/^[0-9a-fA-F]{24}$/\<close> (utils/validators.js)\<close>
  "isValidObjectId s = (length s = 24 \<and> list_all isHexDigit s)"

definition castObjectId :: "string \<Rightarrow> objectId option" where
  "castObjectId s = (if isValidObjectId s then Some (toLowerCase s) else None)"

definition toString :: "objectId \<Rightarrow> string" where
  "toString i = i"

definition findById :: "db \<Rightarrow> string \<Rightarrow> user option" where
  "findById d i = find (\<lambda>u. Some (user_id u) = castObjectId i) (db_users d)"


section \<open>The account security state machine\<close>

text \<open>
  The virtual \<^verbatim>\<open>isLocked\<close> and the methods \<^verbatim>\<open>incLoginAttempts\<close> and
  \<^verbatim>\<open>resetLoginAttempts\<close> of User.js. A \<^verbatim>\<open>Date\<close> object is truthy, so
  \<^verbatim>\<open>this.lockUntil && ...\<close> tests that the field is set. The environment holds what
  \<^verbatim>\<open>parseInt\<close> makes of \<^verbatim>\<open>MAX_LOGIN_ATTEMPTS\<close> and \<^verbatim>\<open>LOCKOUT_TIME\<close>, \<open>None\<close> for
  \<^verbatim>\<open>NaN\<close> (the variable unset or not a number); \<^verbatim>\<open>|| 5\<close> replaces \<^verbatim>\<open>NaN\<close> and 0.
  One call of \<^verbatim>\<open>incLoginAttempts\<close> runs without yielding, and its readings of
  \<^verbatim>\<open>Date.now()\<close> are taken as one instant \<open>now\<close>. Each method gives the user document
  as \<^verbatim>\<open>updateOne\<close> leaves it; an unset \<^verbatim>\<open>loginAttempts\<close> reads as the schema default 0.
\<close>

record env =
  MAX_LOGIN_ATTEMPTS :: "int option"
  LOCKOUT_TIME :: "int option"

definition orElse :: "int option \<Rightarrow> int \<Rightarrow> int" where
  \<comment> \<open>\<^verbatim>\<open>parseInt(v) || dflt\<close>\<close>
  "orElse v dflt = (case v of None \<Rightarrow> dflt | Some n \<Rightarrow> if n = 0 then dflt else n)"

definition isLocked :: "user \<Rightarrow> int \<Rightarrow> bool" where
  "isLocked this now = (case lockUntil this of None \<Rightarrow> False | Some t \<Rightarrow> t > now)"

definition incLoginAttempts :: "env \<Rightarrow> int \<Rightarrow> user \<Rightarrow> user" where
  "incLoginAttempts e now this =
     (if (case lockUntil this of None \<Rightarrow> False | Some t \<Rightarrow> t < now)
      then this\<lparr> lockUntil := None, loginAttempts := 1 \<rparr>
      else
        (let maxAttempts = orElse (MAX_LOGIN_ATTEMPTS e) 5;
             lockTime = orElse (LOCKOUT_TIME e) 15
         in if loginAttempts this + 1 \<ge> maxAttempts \<and> \<not> isLocked this now
            then this\<lparr> loginAttempts := loginAttempts this + 1,
                       lockUntil := Some (now + lockTime * 60 * 1000) \<rparr>
            else this\<lparr> loginAttempts := loginAttempts this + 1 \<rparr>))"

definition resetLoginAttempts :: "user \<Rightarrow> user" where
  "resetLoginAttempts this = this\<lparr> loginAttempts := 0, lockUntil := None \<rparr>"

definition saveUser :: "db \<Rightarrow> user \<Rightarrow> db" where
  \<comment> \<open>write the document back under its \<^verbatim>\<open>_id\<close>\<close>
  "saveUser d u = d\<lparr> db_users := map (\<lambda>x. if user_id x = user_id u then u else x) (db_users d) \<rparr>"

section \<open>Login\<close>

text \<open>
  \<^verbatim>\<open>login\<close> (controllers/authController.js). \<^verbatim>\<open>comparePassword\<close> is bcrypt's
  comparison of the candidate with the stored hash, a parameter here. \<open>now\<close> is the
  clock at the lock gate, \<open>now'\<close> the clock after the password comparison. The token
  and the cookie of a successful login are not modelled.
\<close>

definition isValidEmail :: "string \<Rightarrow> bool" where
  \<comment> \<open>\<^verbatim>\<open>/^[^\s@]+@[^\s@]+\.[^\s@]+$/\<close>\<close>
  "isValidEmail s =
     (let localPart = takeWhile (\<lambda>c. c \<noteq> CHR ''@'') s;
          rest = dropWhile (\<lambda>c. c \<noteq> CHR ''@'') s;
          domain = tl rest
      in \<not> list_ex isSpace s \<and> localPart \<noteq> [] \<and> rest \<noteq> []
         \<and> CHR ''@'' \<notin> set domain
         \<and> list_ex (\<lambda>k. domain ! k = CHR ''.'') [1 ..< length domain - 1])"

record login_body =
  body_email :: "string option"
  body_password :: "string option"

definition falsy :: "string option \<Rightarrow> bool" where
  \<comment> \<open>\<^verbatim>\<open>!v\<close> for a value that is a string or \<^verbatim>\<open>undefined\<close>\<close>
  "falsy v = (case v of None \<Rightarrow> True | Some s \<Rightarrow> s = [])"

definition login ::
  "(string \<Rightarrow> string \<Rightarrow> bool) \<Rightarrow> env \<Rightarrow> db \<Rightarrow> int \<Rightarrow> int \<Rightarrow> login_body
     \<Rightarrow> response \<times> db \<times> call list" where
  "login comparePassword e d now now' body =
     (if falsy (body_email body) \<or> falsy (body_password body)
      then (sendErrorResponse 400 ''Email and password are required'', d, [])
      else
        (let email' = the (body_email body); password' = the (body_password body) in
         if \<not> isValidEmail email'
         then (sendErrorResponse 400 ''Please provide a valid email address'', d, [])
         else
           (let sanitizedEmail = trim (toLowerCase email') in
            case find (\<lambda>u. email u = sanitizedEmail) (db_users d) of
              None \<Rightarrow> (sendErrorResponse 401 ''Invalid email or password'', d, [])
            | Some user \<Rightarrow>
                if isLocked user now
                then (sendErrorResponse 423
                        ''Account is temporarily locked due to too many failed login attempts. Please try again later.'',
                      d, [])
                else if \<not> isActive user
                then (sendErrorResponse 403
                        ''Account is deactivated. Please contact administrator.'', d, [])
                else if \<not> comparePassword password' (password user)
                then (sendErrorResponse 401 ''Invalid email or password'',
                      saveUser d (incLoginAttempts e now' user),
                      [ComparePassword, IncLoginAttempts])
                else
                  (let user1 = (if loginAttempts user > 0 then resetLoginAttempts user else user);
                       user2 = user1\<lparr> lastLogin := Some now' \<rparr>
                   in (sendSuccessResponse 200 ''Login successful'', saveUser d user2,
                       ComparePassword #
                         (if loginAttempts user > 0 then [ResetLoginAttempts] else []))))))"


section \<open>The session validator\<close>







section \<open>Per-user overrides\<close>

text \<open>
  \<^verbatim>\<open>grantCustomPermissions\<close> and \<^verbatim>\<open>revokeCustomPermissions\<close> (controllers/userController.js).
  The request names the user by \<^verbatim>\<open>req.params.id\<close> and the permissions by the strings of
  \<^verbatim>\<open>req.body.permissions\<close>. Where a string of the request goes into a query or onto an
  array of references, Mongoose casts it; the handlers themselves compare strings
  (\<^verbatim>\<open>existingId.toString() === permId\<close>, \<^verbatim>\<open>permissions.includes(permId.toString())\<close>).
  An exception leaves the handler through \<^verbatim>\<open>asyncHandler\<close> to the error middleware,
  before \<^verbatim>\<open>user.save()\<close>.
\<close>

datatype reply = Sent response | Thrown string

record override_request =
  param_id :: string
  body_permissions :: "string list option"

definition grantCustomPermissions :: "db \<Rightarrow> override_request \<Rightarrow> reply \<times> db" where
  "grantCustomPermissions d req =
     (if \<not> isValidObjectId (param_id req)
      then (Sent (sendErrorResponse 400 ''Invalid user ID''), d)
      else
        (case body_permissions req of
           None \<Rightarrow> (Sent (sendErrorResponse 400 ''Permissions array is required''), d)
         | Some perms \<Rightarrow>
             if perms = []
             then (Sent (sendErrorResponse 400 ''Permissions array is required''), d)
             else if filter (\<lambda>permId. \<not> isValidObjectId permId) perms \<noteq> []
             then (Sent (sendErrorResponse 400 ''Invalid permission IDs provided''), d)
             else
               (case findById d (param_id req) of
                  None \<Rightarrow> (Sent (sendErrorResponse 404 ''User not found''), d)
                | Some user \<Rightarrow>
                    (let existingPermissions =
                           filter (\<lambda>p. Some (perm_id p) \<in> set (map castObjectId perms))
                             (db_permissions d)
                     in if length existingPermissions \<noteq> length perms
                        then (Sent (sendErrorResponse 400 ''Some permissions do not exist''), d)
                        else
                          (let newPermissions =
                                 filter (\<lambda>permId.
                                     \<not> list_ex (\<lambda>existingId. toString existingId = permId)
                                         (granted user))
                                   perms
                           in if newPermissions = []
                              then (Sent (sendErrorResponse 400
                                      ''All specified permissions are already granted to this user''), d)
                              else
                                (let user1 = user\<lparr> granted :=
                                               granted user @ map toLowerCase newPermissions \<rparr>;
                                     user2 = user1\<lparr> revoked :=
                                               filter (\<lambda>permId. toString permId \<notin> set perms)
                                                 (revoked user1) \<rparr>
                                 in (Sent (sendSuccessResponse 200
                                       (showNat (length newPermissions)
                                          @ '' custom permissions granted successfully'')),
                                     saveUser d user2)))))))"

definition revokeCustomPermissions :: "db \<Rightarrow> override_request \<Rightarrow> reply \<times> db" where
  "revokeCustomPermissions d req =
     (if \<not> isValidObjectId (param_id req)
      then (Sent (sendErrorResponse 400 ''Invalid user ID''), d)
      else
        (case body_permissions req of
           None \<Rightarrow> (Sent (sendErrorResponse 400 ''Permissions array is required''), d)
         | Some perms \<Rightarrow>
             if perms = []
             then (Sent (sendErrorResponse 400 ''Permissions array is required''), d)
             else
               (case findById d (param_id req) of
                  None \<Rightarrow> (Sent (sendErrorResponse 404 ''User not found''), d)
                | Some user \<Rightarrow>
                    (let newRevokedPermissions =
                           filter (\<lambda>permId.
                               \<not> list_ex (\<lambda>existingId. toString existingId = permId)
                                   (revoked user))
                             perms
                     in if list_ex (\<lambda>permId. castObjectId permId = None) newRevokedPermissions
                        then (Thrown ''CastError'', d)
                        else
                          (let user1 = user\<lparr> revoked :=
                                         revoked user @ map toLowerCase newRevokedPermissions \<rparr>;
                               user2 = user1\<lparr> granted :=
                                         filter (\<lambda>permId. toString permId \<notin> set perms)
                                           (granted user1) \<rparr>
                           in (Sent (sendSuccessResponse 200
                                 (showNat (length newRevokedPermissions)
                                    @ '' custom permissions revoked successfully'')),
                               saveUser d user2))))))"


section \<open>Example data\<close>

text \<open>
  A small database. The role Editor holds \<^verbatim>\<open>post.create\<close> and \<^verbatim>\<open>post.read\<close>; the role
  SuperAdmin holds no permission at all. Alice is an Editor with \<^verbatim>\<open>post.delete\<close> granted
  and \<^verbatim>\<open>post.read\<close> revoked. Bob's role reference names no role document. Carol is a
  SuperAdmin. Dave is locked until time 2000000. Erin is deactivated.
\<close>

definition id_create :: objectId where "id_create = ''64b0f1a2c3d4e5f601234501''"
definition id_read :: objectId where "id_read = ''64b0f1a2c3d4e5f601234502''"
definition id_delete :: objectId where "id_delete = ''64b0f1a2c3d4e5f601234503''"
definition id_editor :: objectId where "id_editor = ''64b0f1a2c3d4e5f6012345e1''"
definition id_super :: objectId where "id_super = ''64b0f1a2c3d4e5f6012345e2''"
definition id_gone :: objectId where "id_gone = ''64b0f1a2c3d4e5f6012345ee''"
definition id_alice :: objectId where "id_alice = ''64b0f1a2c3d4e5f6012345a1''"
definition id_bob :: objectId where "id_bob = ''64b0f1a2c3d4e5f6012345b1''"
definition id_carol :: objectId where "id_carol = ''64b0f1a2c3d4e5f6012345c1''"
definition id_dave :: objectId where "id_dave = ''64b0f1a2c3d4e5f6012345d1''"
definition id_erin :: objectId where "id_erin = ''64b0f1a2c3d4e5f6012345f1''"

definition p_create :: permission where
  "p_create = \<lparr> perm_id = id_create, perm_name = ''post.create'',
                 perm_resource = ''post'', perm_action = ''create'' \<rparr>"

definition p_read :: permission where
  "p_read = \<lparr> perm_id = id_read, perm_name = ''post.read'',
               perm_resource = ''post'', perm_action = ''read'' \<rparr>"

definition p_delete :: permission where
  "p_delete = \<lparr> perm_id = id_delete, perm_name = ''post.delete'',
                 perm_resource = ''post'', perm_action = ''delete'' \<rparr>"

definition editorRole :: role where
  "editorRole = \<lparr> role_id = id_editor, role_name = ''Editor'',
                   role_permissions = [id_create, id_read],
                   isSystemRole = False, role_isActive = True \<rparr>"

definition superAdminRole :: role where
  "superAdminRole = \<lparr> role_id = id_super, role_name = ''SuperAdmin'',
                       role_permissions = [],
                       isSystemRole = True, role_isActive = True \<rparr>"

definition alice :: user where
  "alice = \<lparr> user_id = id_alice, email = ''alice@example.com'', password = ''hash-a'',
              user_role = id_editor, granted = [id_delete], revoked = [id_read],
              isActive = True, loginAttempts = 0, lockUntil = None, lastLogin = None \<rparr>"

definition bob :: user where
  "bob = \<lparr> user_id = id_bob, email = ''bob@example.com'', password = ''hash-b'',
            user_role = id_gone, granted = [id_delete, id_read], revoked = [id_read],
            isActive = True, loginAttempts = 0, lockUntil = None, lastLogin = None \<rparr>"

definition carol :: user where
  "carol = \<lparr> user_id = id_carol, email = ''carol@example.com'', password = ''hash-c'',
              user_role = id_super, granted = [], revoked = [],
              isActive = True, loginAttempts = 0, lockUntil = None, lastLogin = None \<rparr>"

definition dave :: user where
  "dave = \<lparr> user_id = id_dave, email = ''dave@example.com'', password = ''hash-d'',
             user_role = id_editor, granted = [], revoked = [],
             isActive = True, loginAttempts = 5, lockUntil = Some 2000000, lastLogin = None \<rparr>"

definition erin :: user where
  "erin = \<lparr> user_id = id_erin, email = ''erin@example.com'', password = ''hash-e'',
             user_role = id_editor, granted = [], revoked = [],
             isActive = False, loginAttempts = 0, lockUntil = None, lastLogin = None \<rparr>"

definition exampleDb :: db where
  "exampleDb = \<lparr> db_users = [alice, bob, carol, dave, erin],
                  db_roles = [editorRole, superAdminRole],
                  db_permissions = [p_create, p_read, p_delete] \<rparr>"

definition inactiveDb :: db where
  \<comment> \<open>the example database with every role deactivated\<close>
  "inactiveDb = exampleDb\<lparr> db_roles := map (\<lambda>r. r\<lparr> role_isActive := False \<rparr>) (db_roles exampleDb) \<rparr>"

definition requestOf :: "user \<Rightarrow> request" where
  \<comment> \<open>a request as \<^verbatim>\<open>authenticate\<close> passes it on for the user\<close>
  "requestOf u = \<lparr> authorization = None, cookieToken = None,
                    req_user = Some (populate exampleDb u), permissionCheck = None \<rparr>"



definition defaultEnv :: env where
  "defaultEnv = \<lparr> MAX_LOGIN_ATTEMPTS = None, LOCKOUT_TIME = None \<rparr>"

definition admitted :: "result \<times> call list \<Rightarrow> bool" where
  \<comment> \<open>the middleware called \<^verbatim>\<open>next()\<close>\<close>
  "admitted r = (case fst r of Next _ \<Rightarrow> True | Respond _ \<Rightarrow> False)"

definition canonical :: "string \<Rightarrow> bool" where
  \<comment> \<open>the string is the \<^verbatim>\<open>toString()\<close> of the id it casts to\<close>
  "canonical s = (isValidObjectId s \<and> toLowerCase s = s)"

lemmas example_ids = id_create_def id_read_def id_delete_def id_editor_def id_super_def
  id_gone_def id_alice_def id_bob_def id_carol_def id_dave_def id_erin_def

lemmas example_docs = p_create_def p_read_def p_delete_def editorRole_def superAdminRole_def
  alice_def bob_def carol_def dave_def erin_def exampleDb_def

lemmas resolver_defs = getAllPermissions_def populate_def populateRole_def
  populatePermissions_def findPermission_def pushGranted_def


section \<open>Facts about the example ids\<close>

lemma example_ids_valid:
  "isValidObjectId id_alice" "isValidObjectId id_bob"
  "isValidObjectId id_create" "isValidObjectId id_read" "isValidObjectId id_delete"
  "isValidObjectId id_dave" "isValidObjectId id_erin"
  by (simp_all add: isValidObjectId_def isHexDigit_def example_ids)

lemma example_ids_lower:
  "toLowerCase id_alice = id_alice" "toLowerCase id_bob = id_bob"
  "toLowerCase id_create = id_create" "toLowerCase id_read = id_read"
  "toLowerCase id_delete = id_delete"
  "toLowerCase id_dave = id_dave" "toLowerCase id_erin = id_erin"
  by (simp_all add: toLowerCase_def toLowerCaseChar_def example_ids)

lemma example_ids_cast:
  "castObjectId id_alice = Some id_alice" "castObjectId id_bob = Some id_bob"
  "castObjectId id_create = Some id_create" "castObjectId id_read = Some id_read"
  "castObjectId id_delete = Some id_delete"
  "castObjectId id_dave = Some id_dave" "castObjectId id_erin = Some id_erin"
  by (simp_all add: castObjectId_def example_ids_valid example_ids_lower)

lemma findById_found: "findById d i = Some u \<Longrightarrow> isValidObjectId i"
  by (auto simp: findById_def castObjectId_def find_Some_iff split: if_splits)


section \<open>Facts about population and the resolver\<close>

lemma findPermission_id: "findPermission d i = Some p \<Longrightarrow> perm_id p = i"
  unfolding findPermission_def by (induction "db_permissions d") (auto simp: find_Some_iff)

lemma populatePermissions_set:
  "set (populatePermissions d ids) = {p. \<exists>i \<in> set ids. findPermission d i = Some p}"
  unfolding populatePermissions_def
  by (induction ids) (auto split: option.splits)

lemma populated_found:
  assumes "p \<in> set (populatePermissions d ids)"
  shows "findPermission d (perm_id p) = Some p"
proof -
  from assms obtain i where i: "findPermission d i = Some p"
    unfolding populatePermissions_set by blast
  then have "perm_id p = i" by (rule findPermission_id)
  with i show ?thesis by simp
qed

lemma populated_same_id:
  assumes "p \<in> set (populatePermissions d xs)" and "q \<in> set (populatePermissions d ys)"
    and "perm_id p = perm_id q"
  shows "p = q"
  using populated_found [OF assms(1)] populated_found [OF assms(2)] assms(3)
  by (metis option.inject)

lemma pushGranted_ids:
  "perm_id ` set (pushGranted acc g) = insert (perm_id g) (perm_id ` set acc)"
proof (cases "\<exists>x\<in>set acc. perm_id x = perm_id g")
  case True
  then have "perm_id g \<in> perm_id ` set acc" by (metis image_eqI)
  then show ?thesis using True unfolding pushGranted_def list_ex_iff by auto
next
  case False
  then show ?thesis unfolding pushGranted_def list_ex_iff by auto
qed

lemma set_foldl_pushGranted_ids:
  "perm_id ` set (foldl pushGranted acc gs) = perm_id ` set acc \<union> perm_id ` set gs"
proof (induction gs arbitrary: acc)
  case Nil
  show ?case by simp
next
  case (Cons g gs)
  show ?case
    using Cons.IH [of "pushGranted acc g"] by (simp add: pushGranted_ids)
qed

lemma pushGranted_sub:
  "set acc \<subseteq> set (pushGranted acc g) \<and> set (pushGranted acc g) \<subseteq> insert g (set acc)"
  unfolding pushGranted_def by auto

lemma set_foldl_pushGranted_sub:
  "set acc \<subseteq> set (foldl pushGranted acc gs) \<and> set (foldl pushGranted acc gs) \<subseteq> set acc \<union> set gs"
proof (induction gs arbitrary: acc)
  case Nil
  show ?case by simp
next
  case (Cons g gs)
  show ?case
    using Cons.IH [of "pushGranted acc g"] pushGranted_sub [of acc g] by auto
qed

lemma populateRole_permissions:
  "populateRole d i = Some r \<Longrightarrow> \<exists>ids. prole_permissions r = populatePermissions d ids"
  unfolding populateRole_def by (auto split: option.splits)

lemma rolePermissions_populated:
  "\<exists>ids. (case role (populate d u) of None \<Rightarrow> [] | Some r \<Rightarrow> prole_permissions r)
            = populatePermissions d ids"
proof (cases "populateRole d (user_role u)")
  case None
  have "[] = populatePermissions d []" by (simp add: populatePermissions_def)
  then have "\<exists>ids. [] = populatePermissions d ids" ..
  with None show ?thesis by (simp add: populate_def)
next
  case (Some r)
  with populateRole_permissions [OF Some] show ?thesis by (simp add: populate_def)
qed

lemma foldl_pushGranted_populated:
  "set (foldl pushGranted (populatePermissions d xs) (populatePermissions d ys))
     = set (populatePermissions d xs) \<union> set (populatePermissions d ys)"
proof
  let ?a = "populatePermissions d xs" and ?g = "populatePermissions d ys"
  let ?f = "foldl pushGranted ?a ?g"
  show "set ?f \<subseteq> set ?a \<union> set ?g" using set_foldl_pushGranted_sub [of ?a ?g] by blast
next
  let ?a = "populatePermissions d xs" and ?g = "populatePermissions d ys"
  let ?f = "foldl pushGranted ?a ?g"
  show "set ?a \<union> set ?g \<subseteq> set ?f"
  proof
    fix x assume x: "x \<in> set ?a \<union> set ?g"
    have sub: "set ?f \<subseteq> set ?a \<union> set ?g" using set_foldl_pushGranted_sub [of ?a ?g] by blast
    from x have "perm_id x \<in> perm_id ` set ?f"
      unfolding set_foldl_pushGranted_ids by blast
    then obtain y where y: "y \<in> set ?f" "perm_id y = perm_id x" by auto
    from y(1) sub have "y \<in> set ?a \<union> set ?g" by blast
    with x y(2) have "y = x" using populated_same_id by (metis Un_iff)
    with y(1) show "x \<in> set ?f" by simp
  qed
qed

lemma revoked_filter_populated:
  assumes "x \<in> set (populatePermissions d xs)"
  shows "list_ex (\<lambda>r. perm_id r = perm_id x) (populatePermissions d ys)
           \<longleftrightarrow> x \<in> set (populatePermissions d ys)"
  unfolding list_ex_iff using assms populated_same_id by metis

lemma getAllPermissions_ids:
  "perm_id ` set (getAllPermissions d u) =
     (perm_id ` set (case role (populate d u) of None \<Rightarrow> [] | Some r \<Rightarrow> prole_permissions r)
        \<union> perm_id ` set (cp_granted (populate d u)))
     - perm_id ` set (cp_revoked (populate d u))"
proof -
  have "perm_id ` {x \<in> A. \<not> (\<exists>r \<in> R. perm_id r = perm_id x)} = perm_id ` A - perm_id ` R"
    for A R :: "permission set"
    by (auto simp: image_iff) metis
  then show ?thesis
    by (simp add: getAllPermissions_def Let_def list_ex_iff set_foldl_pushGranted_ids)
qed

lemma getAllPermissions_docs:
  "set (getAllPermissions d u) =
     (set (case role (populate d u) of None \<Rightarrow> [] | Some r \<Rightarrow> prole_permissions r)
        \<union> set (cp_granted (populate d u)))
     - set (cp_revoked (populate d u))"
proof -
  obtain ids where ids: "(case role (populate d u) of None \<Rightarrow> [] | Some r \<Rightarrow> prole_permissions r)
            = populatePermissions d ids"
    using rolePermissions_populated by blast
  have g: "cp_granted (populate d u) = populatePermissions d (granted u)"
    and r: "cp_revoked (populate d u) = populatePermissions d (revoked u)"
    by (simp_all add: populate_def)
  let ?all = "foldl pushGranted (populatePermissions d ids) (populatePermissions d (granted u))"
  have all: "set ?all = set (populatePermissions d ids) \<union> set (populatePermissions d (granted u))"
    by (rule foldl_pushGranted_populated)
  have "set (getAllPermissions d u)
          = {x \<in> set ?all. \<not> list_ex (\<lambda>r. perm_id r = perm_id x) (populatePermissions d (revoked u))}"
    unfolding getAllPermissions_def Let_def ids g r by simp
  also have "\<dots> = {x \<in> set ?all. x \<notin> set (populatePermissions d (revoked u))}"
    unfolding all using revoked_filter_populated by blast
  also have "\<dots> = set ?all - set (populatePermissions d (revoked u))" by blast
  finally show ?thesis unfolding all ids g r .
qed


section \<open>The resolver's formula\<close>

text \<open>
  Claim C1. For a principal whose role is loaded, \<^verbatim>\<open>getAllPermissions\<close> returns exactly
  (role.permissions \<union> granted) \<setminus> revoked, the union taken before the subtraction: the
  set of permission documents it returns is that set, and so is the set of their ids. A
  permission in revoked is therefore absent from the result, also when the role or the
  granted list holds it.
\<close>

theorem getAllPermissions_formula:
  assumes "role (populate d u) = Some r"
  shows "set (getAllPermissions d u) =
           (set (prole_permissions r) \<union> set (cp_granted (populate d u)))
             - set (cp_revoked (populate d u))
         \<and> perm_id ` set (getAllPermissions d u) =
           (perm_id ` set (prole_permissions r) \<union> perm_id ` set (cp_granted (populate d u)))
             - perm_id ` set (cp_revoked (populate d u))"
  using getAllPermissions_docs [of d u] getAllPermissions_ids [of d u] assms by simp

text \<open>
  The scenario of the specification, with \<^verbatim>\<open>post.read\<close> revoked: role Editor =
  \<open>{post.create, post.read}\<close>, granted \<open>{post.delete}\<close>, revoked \<open>{post.read}\<close>.
\<close>

theorem getAllPermissions_formula_witness:
  "role (populate exampleDb alice) =
     Some \<lparr> prole_id = id_editor, prole_name = ''Editor'', prole_permissions = [p_create, p_read],
            prole_isSystemRole = False, prole_isActive = True \<rparr>
   \<and> cp_granted (populate exampleDb alice) = [p_delete]
   \<and> cp_revoked (populate exampleDb alice) = [p_read]
   \<and> set (getAllPermissions exampleDb alice) = ({p_create, p_read} \<union> {p_delete}) - {p_read}
   \<and> getAllPermissions exampleDb alice = [p_create, p_delete]"
proof -
  let ?r = "\<lparr> prole_id = id_editor, prole_name = ''Editor'', prole_permissions = [p_create, p_read],
            prole_isSystemRole = False, prole_isActive = True \<rparr>"
  have r: "role (populate exampleDb alice) = Some ?r"
    by (simp add: resolver_defs example_docs example_ids)
  have g: "cp_granted (populate exampleDb alice) = [p_delete]"
    by (simp add: resolver_defs example_docs example_ids)
  have v: "cp_revoked (populate exampleDb alice) = [p_read]"
    by (simp add: resolver_defs example_docs example_ids)
  have l: "getAllPermissions exampleDb alice = [p_create, p_delete]"
    by (simp add: resolver_defs example_docs example_ids)
  from getAllPermissions_formula [OF r] r g v l show ?thesis by simp
qed

section \<open>A principal with no role\<close>

text \<open>
  Against claim C4: Bob's role reference resolves to no role, and the resolver returns
  the permission list granted minus revoked; it signals nothing.
\<close>

theorem getAllPermissions_missing_role_counterexample:
  "role (populate exampleDb bob) = None \<and> getAllPermissions exampleDb bob = [p_delete]"
  by (simp add: resolver_defs example_docs example_ids)

text \<open>
  Claim C4 as amended. For a principal whose role is not loaded, \<^verbatim>\<open>getAllPermissions\<close>
  signals no error: \<^verbatim>\<open>this.role?.permissions || []\<close> takes the missing role as an empty
  permission list, and the result is granted \<setminus> revoked.
\<close>

theorem getAllPermissions_missing_role:
  assumes "role (populate d u) = None"
  shows "set (getAllPermissions d u) =
           set (cp_granted (populate d u)) - set (cp_revoked (populate d u))"
  using getAllPermissions_docs [of d u] assms by simp

theorem getAllPermissions_missing_role_witness:
  "role (populate exampleDb bob) = None
   \<and> cp_granted (populate exampleDb bob) = [p_delete, p_read]
   \<and> cp_revoked (populate exampleDb bob) = [p_read]
   \<and> set (getAllPermissions exampleDb bob) = {p_delete, p_read} - {p_read}"
proof -
  have r: "role (populate exampleDb bob) = None"
    by (simp add: resolver_defs example_docs example_ids)
  have g: "cp_granted (populate exampleDb bob) = [p_delete, p_read]"
    by (simp add: resolver_defs example_docs example_ids)
  have v: "cp_revoked (populate exampleDb bob) = [p_read]"
    by (simp add: resolver_defs example_docs example_ids)
  from getAllPermissions_missing_role [OF r] r g v show ?thesis by simp
qed

section \<open>The role's activity flag\<close>

lemma find_map_same_key:
  assumes "\<And>x. P (f x) = P x"
  shows "find P (map f xs) = map_option f (find P xs)"
  using assms by (induction xs) simp_all

lemma getAllPermissions_flags_irrelevant:
  "getAllPermissions (d\<lparr>db_roles := map (\<lambda>r. r\<lparr>role_isActive := f r\<rparr>) (db_roles d)\<rparr>) u
     = getAllPermissions d u"
proof -
  let ?d = "d\<lparr>db_roles := map (\<lambda>r. r\<lparr>role_isActive := f r\<rparr>) (db_roles d)\<rparr>"
  have fp: "findPermission ?d = findPermission d"
    by (rule ext) (simp add: findPermission_def)
  then have pp: "populatePermissions ?d = populatePermissions d"
    by (intro ext) (simp add: populatePermissions_def)
  have "find (\<lambda>r. role_id r = i) (db_roles ?d)
          = map_option (\<lambda>r. r\<lparr>role_isActive := f r\<rparr>) (find (\<lambda>r. role_id r = i) (db_roles d))" for i
    by (simp add: find_map_same_key)
  then have "map_option prole_permissions (populateRole ?d i)
               = map_option prole_permissions (populateRole d i)" for i
    unfolding populateRole_def pp by (cases "find (\<lambda>r. role_id r = i) (db_roles d)") simp_all
  then have "(case populateRole ?d i of None \<Rightarrow> [] | Some r \<Rightarrow> prole_permissions r)
           = (case populateRole d i of None \<Rightarrow> [] | Some r \<Rightarrow> prole_permissions r)" for i
    by (metis (no_types, lifting) option.case_eq_if option.map_sel option.map_disc_iff)
  then show ?thesis
    unfolding getAllPermissions_def populate_def pp by simp
qed

lemma getAllPermissions_role_found:
  assumes "find (\<lambda>r. role_id r = user_role u) (db_roles d) = Some r"
  shows "set (getAllPermissions d u) =
           (set (populatePermissions d (role_permissions r))
              \<union> set (populatePermissions d (granted u)))
             - set (populatePermissions d (revoked u))"
  using getAllPermissions_docs [of d u] assms
  by (simp add: populate_def populateRole_def)

text \<open>
  Claim C9. The \<^verbatim>\<open>isActive\<close> flag of a role has no effect on resolution. Whatever
  values \<open>f\<close> gives the flags of the roles in the database, every principal resolves to
  the same permission list. And a principal whose role document is \<open>r\<close>, active or not,
  resolves to all the permissions of \<open>r\<close> and the granted ones, less the revoked ones:
  an inactive role still contributes all of its permissions.
\<close>

theorem getAllPermissions_ignores_role_isActive:
  "getAllPermissions (d\<lparr>db_roles := map (\<lambda>r. r\<lparr>role_isActive := f r\<rparr>) (db_roles d)\<rparr>) u
     = getAllPermissions d u
   \<and> (find (\<lambda>r. role_id r = user_role u) (db_roles d) = Some r \<longrightarrow>
        set (getAllPermissions d u) =
          (set (populatePermissions d (role_permissions r))
             \<union> set (populatePermissions d (granted u)))
            - set (populatePermissions d (revoked u)))"
  using getAllPermissions_flags_irrelevant [where d = d and f = f and u = u]
    getAllPermissions_role_found [where d = d and u = u and r = r]
  by blast

text \<open>
  With every role of the example database deactivated, Alice's role document is the
  inactive Editor role, and she resolves as before: \<^verbatim>\<open>post.create\<close> comes from that role.
\<close>

theorem getAllPermissions_ignores_role_isActive_witness:
  "find (\<lambda>r. role_id r = user_role alice) (db_roles inactiveDb)
     = Some (editorRole\<lparr> role_isActive := False \<rparr>)
   \<and> \<not> role_isActive (editorRole\<lparr> role_isActive := False \<rparr>)
   \<and> populatePermissions inactiveDb (role_permissions (editorRole\<lparr> role_isActive := False \<rparr>))
       = [p_create, p_read]
   \<and> set (getAllPermissions inactiveDb alice) = ({p_create, p_read} \<union> {p_delete}) - {p_read}
   \<and> getAllPermissions inactiveDb alice = getAllPermissions exampleDb alice
   \<and> getAllPermissions inactiveDb alice = [p_create, p_delete]"
proof -
  have f: "find (\<lambda>r. role_id r = user_role alice) (db_roles inactiveDb)
             = Some (editorRole\<lparr> role_isActive := False \<rparr>)"
    by (simp add: inactiveDb_def example_docs example_ids)
  have rp: "populatePermissions inactiveDb (role_permissions (editorRole\<lparr> role_isActive := False \<rparr>))
              = [p_create, p_read]"
    by (simp add: inactiveDb_def populatePermissions_def findPermission_def example_docs example_ids)
  have g: "populatePermissions inactiveDb (granted alice) = [p_delete]"
    by (simp add: inactiveDb_def populatePermissions_def findPermission_def example_docs example_ids)
  have v: "populatePermissions inactiveDb (revoked alice) = [p_read]"
    by (simp add: inactiveDb_def populatePermissions_def findPermission_def example_docs example_ids)
  have ex: "getAllPermissions exampleDb alice = [p_create, p_delete]"
    by (simp add: resolver_defs example_docs example_ids)
  note t = getAllPermissions_ignores_role_isActive
             [where d = exampleDb and f = "\<lambda>r. False" and u = alice]
  note t' = getAllPermissions_ignores_role_isActive
             [where d = inactiveDb and f = "\<lambda>r. False" and u = alice
                and r = "editorRole\<lparr> role_isActive := False \<rparr>"]
  have same: "getAllPermissions inactiveDb alice = getAllPermissions exampleDb alice"
    using t unfolding inactiveDb_def by simp
  have st: "set (getAllPermissions inactiveDb alice) = ({p_create, p_read} \<union> {p_delete}) - {p_read}"
    using t' f rp g v by simp
  from f rp st same ex show ?thesis by simp
qed


section \<open>The permission middleware: bypass and policy\<close>

lemma carol_populated:
  "populate exampleDb carol =
     \<lparr> raw = carol,
       role = Some \<lparr> prole_id = id_super, prole_name = ''SuperAdmin'', prole_permissions = [],
                     prole_isSystemRole = True, prole_isActive = True \<rparr>,
       cp_granted = [], cp_revoked = [] \<rparr>"
  by (simp add: resolver_defs example_docs example_ids)

lemma carol_resolves_to_nothing: "getAllPermissions exampleDb carol = []"
  by (simp add: resolver_defs example_docs example_ids)

lemma alice_populated:
  "populate exampleDb alice =
     \<lparr> raw = alice,
       role = Some \<lparr> prole_id = id_editor, prole_name = ''Editor'',
                     prole_permissions = [p_create, p_read],
                     prole_isSystemRole = False, prole_isActive = True \<rparr>,
       cp_granted = [p_delete], cp_revoked = [p_read] \<rparr>"
  by (simp add: resolver_defs example_docs example_ids)

lemma alice_resolves: "getAllPermissions exampleDb alice = [p_create, p_delete]"
  by (simp add: resolver_defs example_docs example_ids)

text \<open>
  Claim C2. For an authenticated principal whose role name is \<^verbatim>\<open>SuperAdmin\<close>, the
  middleware with \<^verbatim>\<open>allowSuperAdmin\<close> true calls \<^verbatim>\<open>next()\<close> on the request as it came,
  whatever the required permissions, the \<^verbatim>\<open>requireAll\<close> flag and the database hold, and
  it calls no method of the user: the resolver is not invoked.
\<close>

theorem requirePermissions_superAdmin_bypass:
  assumes "req_user req = Some u" and "role u = Some r" and "prole_name r = ''SuperAdmin''"
    and "allowSuperAdmin opts"
  shows "requirePermissions rp opts d req = (Next req, [])"
  using assms by (simp add: requirePermissions_def isSuperAdmin_def Let_def)

text \<open>
  Carol is a SuperAdmin whose role holds no permission and who resolves to the empty
  list; a policy that requires two permissions at once admits her.
\<close>

theorem requirePermissions_superAdmin_bypass_witness:
  "req_user (requestOf carol) = Some (populate exampleDb carol)
   \<and> map_option prole_name (role (populate exampleDb carol)) = Some ''SuperAdmin''
   \<and> map_option prole_permissions (role (populate exampleDb carol)) = Some []
   \<and> allowSuperAdmin (defaultOptions\<lparr>requireAll := True\<rparr>)
   \<and> getAllPermissions exampleDb carol = []
   \<and> requirePermissions (Many [''post.create'', ''post.delete''])
         (defaultOptions\<lparr>requireAll := True\<rparr>) exampleDb (requestOf carol)
       = (Next (requestOf carol), [])"
proof -
  have u: "req_user (requestOf carol) = Some (populate exampleDb carol)"
    by (simp add: requestOf_def)
  have r: "role (populate exampleDb carol)
             = Some \<lparr> prole_id = id_super, prole_name = ''SuperAdmin'', prole_permissions = [],
                      prole_isSystemRole = True, prole_isActive = True \<rparr>"
    by (simp add: carol_populated)
  have a: "allowSuperAdmin (defaultOptions\<lparr>requireAll := True\<rparr>)"
    by (simp add: defaultOptions_def)
  from requirePermissions_superAdmin_bypass [OF u r _ a] u r a carol_resolves_to_nothing
  show ?thesis by simp
qed

text \<open>
  Against claim C5, which speaks of every authenticated principal: Carol resolves to no
  permission, yet the middleware admits her under \<^verbatim>\<open>requireAll = true\<close> with two required
  permissions, and under \<^verbatim>\<open>requireAll = false\<close> as well.
\<close>

theorem requirePermissions_policy_counterexample:
  "admitted (requirePermissions (Many [''post.create'', ''post.delete''])
               (defaultOptions\<lparr>requireAll := True\<rparr>) exampleDb (requestOf carol))
   \<and> admitted (requirePermissions (Many [''post.create'', ''post.delete''])
               defaultOptions exampleDb (requestOf carol))
   \<and> ''post.create'' \<notin> perm_name ` set (getAllPermissions exampleDb carol)
   \<and> ''post.delete'' \<notin> perm_name ` set (getAllPermissions exampleDb carol)"
  by (simp add: admitted_def requirePermissions_def isSuperAdmin_def Let_def requestOf_def
        defaultOptions_def carol_populated carol_resolves_to_nothing)

text \<open>
  Claim C5 as amended. For an authenticated principal to whom the SuperAdmin bypass does
  not apply (\<^verbatim>\<open>allowSuperAdmin\<close> false, or no role loaded, or a role of another name) and
  the required list \<open>[a, b]\<close>: with \<^verbatim>\<open>requireAll\<close> the middleware admits iff both names
  are among the names of the resolved permissions; without it, iff at least one is. When
  it does not admit, it answers 403 with the whole required list \<open>[a, b]\<close> (the missing
  names among them) and the names of the resolved permissions in the body.
\<close>

theorem requirePermissions_policy:
  assumes "req_user req = Some u" and "\<not> (allowSuperAdmin opts \<and> isSuperAdmin u)"
  shows "(admitted (requirePermissions (Many [a, b]) opts d req) \<longleftrightarrow>
            (if requireAll opts
             then a \<in> perm_name ` set (getAllPermissions d (raw u))
                  \<and> b \<in> perm_name ` set (getAllPermissions d (raw u))
             else a \<in> perm_name ` set (getAllPermissions d (raw u))
                  \<or> b \<in> perm_name ` set (getAllPermissions d (raw u))))
         \<and> (admitted (requirePermissions (Many [a, b]) opts d req)
            \<or> fst (requirePermissions (Many [a, b]) opts d req)
                = Respond \<lparr> status = 403, success = False,
                            message = deniedMessage opts [a, b],
                            res_requiredPermissions = Some [a, b],
                            res_userPermissions =
                              Some (map perm_name (getAllPermissions d (raw u))) \<rparr>)"
proof (cases "requireAll opts")
  case True
  with assms show ?thesis
    by (auto simp: admitted_def requirePermissions_def Let_def toArray_def)
next
  case False
  with assms show ?thesis
    by (auto simp: admitted_def requirePermissions_def Let_def toArray_def)
qed

text \<open>
  Alice resolves to \<^verbatim>\<open>post.create\<close> and \<^verbatim>\<open>post.delete\<close>. Asked for \<^verbatim>\<open>post.create\<close>
  and \<^verbatim>\<open>post.read\<close>, the any-of policy admits her and the all-of policy answers 403.
\<close>

theorem requirePermissions_policy_witness:
  "req_user (requestOf alice) = Some (populate exampleDb alice)
   \<and> \<not> isSuperAdmin (populate exampleDb alice)
   \<and> map perm_name (getAllPermissions exampleDb alice) = [''post.create'', ''post.delete'']
   \<and> admitted (requirePermissions (Many [''post.create'', ''post.read''])
               defaultOptions exampleDb (requestOf alice))
   \<and> \<not> admitted (requirePermissions (Many [''post.create'', ''post.read''])
               (defaultOptions\<lparr>requireAll := True\<rparr>) exampleDb (requestOf alice))
   \<and> fst (requirePermissions (Many [''post.create'', ''post.read''])
               (defaultOptions\<lparr>requireAll := True\<rparr>) exampleDb (requestOf alice))
       = Respond \<lparr> status = 403, success = False,
                   message = ''Access denied. Required permissions: post.create, post.read'',
                   res_requiredPermissions = Some [''post.create'', ''post.read''],
                   res_userPermissions = Some [''post.create'', ''post.delete''] \<rparr>"
proof -
  have u: "req_user (requestOf alice) = Some (populate exampleDb alice)"
    by (simp add: requestOf_def)
  have s: "\<not> isSuperAdmin (populate exampleDb alice)"
    by (simp add: isSuperAdmin_def alice_populated)
  then have n1: "\<not> (allowSuperAdmin defaultOptions \<and> isSuperAdmin (populate exampleDb alice))"
    and n2: "\<not> (allowSuperAdmin (defaultOptions\<lparr>requireAll := True\<rparr>)
                 \<and> isSuperAdmin (populate exampleDb alice))"
    by simp_all
  have names: "map perm_name (getAllPermissions exampleDb alice) = [''post.create'', ''post.delete'']"
    by (simp add: alice_resolves p_create_def p_delete_def)
  have raw: "raw (populate exampleDb alice) = alice" by (simp add: populate_def)
  have msg: "deniedMessage (defaultOptions\<lparr>requireAll := True\<rparr>) [''post.create'', ''post.read'']
               = ''Access denied. Required permissions: post.create, post.read''"
    by (simp add: deniedMessage_def defaultOptions_def)
  have any: "\<not> requireAll defaultOptions" and all: "requireAll (defaultOptions\<lparr>requireAll := True\<rparr>)"
    by (simp_all add: defaultOptions_def)
  have yes: "admitted (requirePermissions (Many [''post.create'', ''post.read''])
                        defaultOptions exampleDb (requestOf alice))"
    using requirePermissions_policy [OF u n1, of "''post.create''" "''post.read''" exampleDb]
      raw any alice_resolves
    by (simp add: p_create_def p_delete_def)
  have no: "\<not> admitted (requirePermissions (Many [''post.create'', ''post.read''])
                        (defaultOptions\<lparr>requireAll := True\<rparr>) exampleDb (requestOf alice))"
    using requirePermissions_policy [OF u n2, of "''post.create''" "''post.read''" exampleDb]
      raw all alice_resolves
    by (simp add: p_create_def p_delete_def)
  have body: "fst (requirePermissions (Many [''post.create'', ''post.read''])
               (defaultOptions\<lparr>requireAll := True\<rparr>) exampleDb (requestOf alice))
       = Respond \<lparr> status = 403, success = False,
                   message = ''Access denied. Required permissions: post.create, post.read'',
                   res_requiredPermissions = Some [''post.create'', ''post.read''],
                   res_userPermissions = Some [''post.create'', ''post.delete''] \<rparr>"
    using requirePermissions_policy [OF u n2, of "''post.create''" "''post.read''" exampleDb]
      no raw msg names
    by simp
  from u s names yes no body show ?thesis by simp
qed


section \<open>Failed logins\<close>

lemma orElse_default: "orElse None dflt = dflt"
  by (simp add: orElse_def)

text \<open>A lock whose time lies strictly before \<open>now\<close>: the counter restarts at 1, the lock is cleared.\<close>

lemma incLoginAttempts_expired:
  assumes "lockUntil u = Some t" and "t < now"
  shows "incLoginAttempts e now u = u\<lparr> lockUntil := None, loginAttempts := 1 \<rparr>"
  using assms by (simp add: incLoginAttempts_def)

text \<open>No lock: the counter goes up by one, and the account is locked when it reaches the threshold.\<close>

lemma incLoginAttempts_no_lock:
  assumes "lockUntil u = None"
  shows "incLoginAttempts e now u =
           (if loginAttempts u + 1 \<ge> orElse (MAX_LOGIN_ATTEMPTS e) 5
            then u\<lparr> loginAttempts := loginAttempts u + 1,
                    lockUntil := Some (now + orElse (LOCKOUT_TIME e) 15 * 60 * 1000) \<rparr>
            else u\<lparr> loginAttempts := loginAttempts u + 1 \<rparr>)"
  using assms by (simp add: incLoginAttempts_def isLocked_def Let_def)

text \<open>
  With the default threshold 5 and lock time 15 minutes, from no failures and no lock:
  four failures leave the account unlocked with four attempts, the fifth locks it.
\<close>

lemma four_failures_stay_unlocked:
  assumes "loginAttempts u = 0" and "lockUntil u = None"
  shows "incLoginAttempts defaultEnv t4 (incLoginAttempts defaultEnv t3
           (incLoginAttempts defaultEnv t2 (incLoginAttempts defaultEnv t1 u)))
         = u\<lparr> loginAttempts := 4 \<rparr>"
  using assms
  by (simp add: incLoginAttempts_def isLocked_def Let_def defaultEnv_def orElse_def)

lemma fifth_failure_locks:
  assumes "loginAttempts u = 4" and "lockUntil u = None"
  shows "incLoginAttempts defaultEnv t5 u
         = u\<lparr> loginAttempts := 5, lockUntil := Some (t5 + 900000) \<rparr>"
  using assms
  by (simp add: incLoginAttempts_def isLocked_def Let_def defaultEnv_def orElse_def)

text \<open>
  Claim C3 at the instant a lock runs out. Dave has five attempts and is locked until
  2000000. At \<open>now = 2000000\<close> the lock is over for \<^verbatim>\<open>isLocked\<close>
  (\<^verbatim>\<open>lockUntil > Date.now()\<close> is false), so a login passes the lock gate; but
  \<^verbatim>\<open>incLoginAttempts\<close> tests \<^verbatim>\<open>lockUntil < Date.now()\<close>, false as well, and does not
  restart the counter: the failure is counted as the sixth and the account is locked again
  for the full lock time. One millisecond later the same failure restarts the counter at 1.
\<close>

theorem incLoginAttempts_at_expiry_instant:
  "lockUntil dave = Some 2000000 \<and> loginAttempts dave = 5
   \<and> \<not> isLocked dave 2000000
   \<and> incLoginAttempts defaultEnv 2000000 dave
       = dave\<lparr> loginAttempts := 6, lockUntil := Some 2900000 \<rparr>
   \<and> isLocked (incLoginAttempts defaultEnv 2000000 dave) 2000000
   \<and> incLoginAttempts defaultEnv 2000001 dave
       = dave\<lparr> lockUntil := None, loginAttempts := 1 \<rparr>"
  by (simp add: incLoginAttempts_def isLocked_def Let_def defaultEnv_def orElse_def dave_def)

section \<open>The lock gate of login\<close>

text \<open>
  Claim C7. A login for a principal that is locked (\<open>now < until\<close>) is rejected at the
  lock gate: whatever the password comparison would say, the answer is the lockout
  rejection (status 423), the database is left as it was, so the attempt counter and the
  lock time are unchanged, and neither \<^verbatim>\<open>comparePassword\<close> nor \<^verbatim>\<open>incLoginAttempts\<close> is
  called.
\<close>

theorem login_locked_gate:
  assumes "body_email body = Some em" and "em \<noteq> []"
    and "body_password body = Some pw" and "pw \<noteq> []"
    and "isValidEmail em"
    and "find (\<lambda>u. email u = trim (toLowerCase em)) (db_users d) = Some user"
    and "lockUntil user = Some until" and "now < until"
  shows "login comparePassword e d now now' body =
           (sendErrorResponse 423
              ''Account is temporarily locked due to too many failed login attempts. Please try again later.'',
            d, [])"
  using assms by (simp add: login_def falsy_def isLocked_def Let_def)

lemma dave_email_valid: "isValidEmail ''dave@example.com''"
  by (simp add: isValidEmail_def Let_def isSpace_def)

lemma dave_email_sanitized: "trim (toLowerCase ''dave@example.com'') = ''dave@example.com''"
  by (simp add: trim_def toLowerCase_def toLowerCaseChar_def isSpace_def)

lemma dave_found:
  "find (\<lambda>u. email u = ''dave@example.com'') (db_users exampleDb) = Some dave"
  by (simp add: example_docs)

text \<open>Dave, locked until 2000000, tries a wrong password at time 1000.\<close>

theorem login_locked_gate_witness:
  "isValidEmail ''dave@example.com''
   \<and> find (\<lambda>u. email u = trim (toLowerCase ''dave@example.com'')) (db_users exampleDb) = Some dave
   \<and> lockUntil dave = Some 2000000 \<and> (1000 :: int) < 2000000
   \<and> login (\<lambda>candidate hash. False) defaultEnv exampleDb 1000 1250
        \<lparr> body_email = Some ''dave@example.com'', body_password = Some ''guess'' \<rparr>
      = (sendErrorResponse 423
           ''Account is temporarily locked due to too many failed login attempts. Please try again later.'',
         exampleDb, [])"
proof -
  have f: "find (\<lambda>u. email u = trim (toLowerCase ''dave@example.com'')) (db_users exampleDb)
             = Some dave"
    by (simp only: dave_email_sanitized dave_found)
  have l: "lockUntil dave = Some 2000000" by (simp add: dave_def)
  have "login (\<lambda>candidate hash. False) defaultEnv exampleDb 1000 1250
          \<lparr> body_email = Some ''dave@example.com'', body_password = Some ''guess'' \<rparr>
        = (sendErrorResponse 423
             ''Account is temporarily locked due to too many failed login attempts. Please try again later.'',
           exampleDb, [])"
    using login_locked_gate [OF _ _ _ _ dave_email_valid f l,
        of "\<lparr> body_email = Some ''dave@example.com'', body_password = Some ''guess'' \<rparr>"
           "''guess''" 1000 "\<lambda>candidate hash. False" defaultEnv 1250]
    by simp
  with dave_email_valid f l show ?thesis by simp
qed


section \<open>The session validator's rejections\<close>









section \<open>Granting what is already granted\<close>

text \<open>
  The early return of \<^verbatim>\<open>grantCustomPermissions\<close> (lines 750 to 756). When every id
  string of the request is the \<^verbatim>\<open>toString()\<close> of an entry of the user's granted list,
  which is the handler's own test, the handler answers with an error (status 400) and
  leaves the database as it was: the granted and revoked lists are unchanged, so an id of
  the request that is in the revoked list stays there. When the request passes the
  earlier checks the error is the one of line 755, sent before the step that clears the
  revoked list.
\<close>

lemma grant_already_granted_rejected:
  assumes "body_permissions req = Some perms"
    and "findById d (param_id req) = Some user"
    and "list_all (\<lambda>permId. permId \<in> set (granted user)) perms"
  shows "snd (grantCustomPermissions d req) = d
         \<and> (\<exists>m. fst (grantCustomPermissions d req) = Sent (sendErrorResponse 400 m))
         \<and> (perms \<noteq> [] \<and> list_all isValidObjectId perms
              \<and> length (filter (\<lambda>p. Some (perm_id p) \<in> set (map castObjectId perms))
                          (db_permissions d)) = length perms
            \<longrightarrow> fst (grantCustomPermissions d req)
                  = Sent (sendErrorResponse 400
                      ''All specified permissions are already granted to this user''))"
proof -
  have v: "isValidObjectId (param_id req)" using assms(2) by (rule findById_found)
  have new: "filter (\<lambda>permId. \<not> list_ex (\<lambda>existingId. toString existingId = permId) (granted user))
               perms = []"
    using assms(3) by (auto simp: filter_empty_conv list_all_iff list_ex_iff toString_def)
  have inv: "list_all isValidObjectId perms
               \<Longrightarrow> filter (\<lambda>permId. \<not> isValidObjectId permId) perms = []"
    by (auto simp: filter_empty_conv list_all_iff)
  have inv': "filter (\<lambda>permId. \<not> isValidObjectId permId) perms = []
               \<Longrightarrow> list_all isValidObjectId perms"
    by (auto simp: filter_empty_conv list_all_iff)
  show ?thesis
    unfolding grantCustomPermissions_def Let_def
    using v assms(1,2) new inv inv' by auto
qed

text \<open>
  Bob has \<^verbatim>\<open>post.read\<close> in both lists. Granting it again is refused, and the database,
  with \<^verbatim>\<open>post.read\<close> still revoked, is as before.
\<close>

lemma grant_already_granted_rejected_example:
  "findById exampleDb id_bob = Some bob
   \<and> list_all (\<lambda>permId. permId \<in> set (granted bob)) [id_read]
   \<and> id_read \<in> set (revoked bob)
   \<and> grantCustomPermissions exampleDb \<lparr> param_id = id_bob, body_permissions = Some [id_read] \<rparr>
       = (Sent (sendErrorResponse 400
            ''All specified permissions are already granted to this user''), exampleDb)"
proof -
  let ?req = "\<lparr> param_id = id_bob, body_permissions = Some [id_read] \<rparr>"
  have f: "findById exampleDb (param_id ?req) = Some bob"
    by (simp add: findById_def example_ids_cast) (simp add: example_docs example_ids)
  have g: "list_all (\<lambda>permId. permId \<in> set (granted bob)) [id_read]"
    by (simp add: bob_def)
  have r: "id_read \<in> set (revoked bob)" by (simp add: bob_def)
  have ex: "length (filter (\<lambda>p. Some (perm_id p) \<in> set (map castObjectId [id_read]))
                      (db_permissions exampleDb)) = length [id_read]"
    by (simp add: example_ids_cast) (simp add: example_docs example_ids)
  have b: "body_permissions ?req = Some [id_read]" by simp
  from grant_already_granted_rejected [OF b f g] ex example_ids_valid(4)
  have "snd (grantCustomPermissions exampleDb ?req) = exampleDb"
    and "fst (grantCustomPermissions exampleDb ?req)
           = Sent (sendErrorResponse 400
               ''All specified permissions are already granted to this user'')"
    by simp_all
  then have "grantCustomPermissions exampleDb ?req
       = (Sent (sendErrorResponse 400
            ''All specified permissions are already granted to this user''), exampleDb)"
    by (simp add: prod_eq_iff)
  with f g r show ?thesis by simp
qed

section \<open>Grant, revoke and the spelling of an id\<close>

text \<open>The successful path of \<^verbatim>\<open>grantCustomPermissions\<close>, and that of \<^verbatim>\<open>revokeCustomPermissions\<close>.\<close>

lemma grantCustomPermissions_success:
  assumes "isValidObjectId (param_id req)" and "body_permissions req = Some perms"
    and "perms \<noteq> []" and "filter (\<lambda>permId. \<not> isValidObjectId permId) perms = []"
    and "findById d (param_id req) = Some user"
    and "length (filter (\<lambda>p. Some (perm_id p) \<in> set (map castObjectId perms))
                   (db_permissions d)) = length perms"
    and "filter (\<lambda>permId. \<not> list_ex (\<lambda>existingId. toString existingId = permId) (granted user))
           perms = new"
    and "new \<noteq> []"
  shows "grantCustomPermissions d req =
           (Sent (sendSuccessResponse 200
                    (showNat (length new) @ '' custom permissions granted successfully'')),
            saveUser d (user\<lparr> granted := granted user @ map toLowerCase new,
                              revoked := filter (\<lambda>permId. toString permId \<notin> set perms)
                                           (revoked user) \<rparr>))"
  unfolding grantCustomPermissions_def Let_def
  by (simp only: assms if_True if_False not_True_eq_False not_False_eq_True simp_thms
        option.case) simp

lemma revokeCustomPermissions_success:
  assumes "isValidObjectId (param_id req)" and "body_permissions req = Some perms"
    and "perms \<noteq> []"
    and "findById d (param_id req) = Some user"
    and "filter (\<lambda>permId. \<not> list_ex (\<lambda>existingId. toString existingId = permId) (revoked user))
           perms = new"
    and "\<not> list_ex (\<lambda>permId. castObjectId permId = None) new"
  shows "revokeCustomPermissions d req =
           (Sent (sendSuccessResponse 200
                    (showNat (length new) @ '' custom permissions revoked successfully'')),
            saveUser d (user\<lparr> revoked := revoked user @ map toLowerCase new,
                              granted := filter (\<lambda>permId. toString permId \<notin> set perms)
                                           (granted user) \<rparr>))"
  unfolding revokeCustomPermissions_def Let_def
  by (simp only: assms if_True if_False not_True_eq_False not_False_eq_True simp_thms
        option.case) simp


text \<open>
  Claim C6 at a request that spells an id in upper case. Alice's lists are disjoint:
  granted holds \<^verbatim>\<open>post.delete\<close>, revoked holds \<^verbatim>\<open>post.read\<close>. The request names
  \<^verbatim>\<open>post.read\<close> by its id with the hexadecimal letters in upper case, which
  \<^verbatim>\<open>isValidObjectId\<close> accepts and Mongoose casts to the same id. The grant succeeds and
  pushes the id onto granted, but the filter of the revoked list compares
  \<^verbatim>\<open>permId.toString()\<close>, in lower case, with the request's string and removes nothing:
  afterwards \<^verbatim>\<open>post.read\<close> is in both lists, and the resolver still leaves it out.
\<close>

theorem grant_uppercase_id_keeps_revoked:
  "set (granted alice) \<inter> set (revoked alice) = {}
   \<and> isValidObjectId ''64B0F1A2C3D4E5F601234502''
   \<and> castObjectId ''64B0F1A2C3D4E5F601234502'' = Some id_read
   \<and> grantCustomPermissions exampleDb
        \<lparr> param_id = id_alice, body_permissions = Some [''64B0F1A2C3D4E5F601234502''] \<rparr>
       = (Sent (sendSuccessResponse 200 ''1 custom permissions granted successfully''),
          saveUser exampleDb (alice\<lparr> granted := [id_delete, id_read], revoked := [id_read] \<rparr>))
   \<and> getAllPermissions
        (saveUser exampleDb (alice\<lparr> granted := [id_delete, id_read], revoked := [id_read] \<rparr>))
        (alice\<lparr> granted := [id_delete, id_read], revoked := [id_read] \<rparr>)
       = [p_create, p_delete]"
proof -
  let ?X = "''64B0F1A2C3D4E5F601234502''"
  let ?req = "\<lparr> param_id = id_alice, body_permissions = Some [?X] \<rparr>"
  have d: "set (granted alice) \<inter> set (revoked alice) = {}"
    by (simp add: alice_def example_ids)
  have v: "isValidObjectId ?X" by (simp add: isValidObjectId_def isHexDigit_def)
  have l: "toLowerCase ?X = id_read"
    by (simp add: toLowerCase_def toLowerCaseChar_def id_read_def)
  have c: "castObjectId ?X = Some id_read" by (simp add: castObjectId_def v l)
  have vp: "isValidObjectId (param_id ?req)" by (simp add: example_ids_valid)
  have b: "body_permissions ?req = Some [?X]" by simp
  have ne: "[?X] \<noteq> []" by simp
  have va: "filter (\<lambda>permId. \<not> isValidObjectId permId) [?X] = []" using v by simp
  have f: "findById exampleDb (param_id ?req) = Some alice"
    by (simp add: findById_def example_ids_cast) (simp add: example_docs example_ids)
  have ex: "length (filter (\<lambda>p. Some (perm_id p) \<in> set (map castObjectId [?X]))
                      (db_permissions exampleDb)) = length [?X]"
    by (simp add: c) (simp add: example_docs example_ids)
  have new: "filter (\<lambda>permId. \<not> list_ex (\<lambda>existingId. toString existingId = permId) (granted alice))
               [?X] = [?X]"
    by (simp add: alice_def toString_def example_ids)
  have rv: "filter (\<lambda>permId. toString permId \<notin> set [?X]) (revoked alice) = [id_read]"
    by (simp add: alice_def toString_def example_ids)
  have h1: "showNat (length [?X]) @ '' custom permissions granted successfully''
              = ''1 custom permissions granted successfully''"
    by simp
  have h2: "alice\<lparr> granted := granted alice @ map toLowerCase [?X],
                   revoked := filter (\<lambda>permId. toString permId \<notin> set [?X]) (revoked alice) \<rparr>
              = alice\<lparr> granted := [id_delete, id_read], revoked := [id_read] \<rparr>"
    unfolding rv by (simp add: l alice_def)
  have g: "grantCustomPermissions exampleDb ?req
       = (Sent (sendSuccessResponse 200 ''1 custom permissions granted successfully''),
          saveUser exampleDb (alice\<lparr> granted := [id_delete, id_read], revoked := [id_read] \<rparr>))"
    using grantCustomPermissions_success [OF vp b ne va f ex new ne] unfolding h1 h2 .
  have e: "getAllPermissions
        (saveUser exampleDb (alice\<lparr> granted := [id_delete, id_read], revoked := [id_read] \<rparr>))
        (alice\<lparr> granted := [id_delete, id_read], revoked := [id_read] \<rparr>)
       = [p_create, p_delete]"
    by (simp add: resolver_defs saveUser_def example_docs example_ids)
  from d v c g e show ?thesis by simp
qed

section \<open>Granting again under another spelling\<close>

text \<open>
  Claim C10 at a request that spells an id in upper case. Bob has \<^verbatim>\<open>post.read\<close> in his
  granted list (and in his revoked list). Named by its stored id, a second grant of
  \<^verbatim>\<open>post.read\<close> is refused with status 400 and the database is left as it was. Named
  by the same id with the hexadecimal letters in upper case, the permission is as much in
  the granted list as before, but \<^verbatim>\<open>existingId.toString() === permId\<close> finds no equal
  string: the handler takes the id for a new one, answers 200 and stores it a second time.
\<close>

theorem grant_uppercase_id_granted_again:
  "castObjectId ''64B0F1A2C3D4E5F601234502'' = Some id_read
   \<and> id_read \<in> set (granted bob)
   \<and> grantCustomPermissions exampleDb \<lparr> param_id = id_bob, body_permissions = Some [id_read] \<rparr>
       = (Sent (sendErrorResponse 400
            ''All specified permissions are already granted to this user''), exampleDb)
   \<and> grantCustomPermissions exampleDb
        \<lparr> param_id = id_bob, body_permissions = Some [''64B0F1A2C3D4E5F601234502''] \<rparr>
       = (Sent (sendSuccessResponse 200 ''1 custom permissions granted successfully''),
          saveUser exampleDb
            (bob\<lparr> granted := [id_delete, id_read, id_read], revoked := [id_read] \<rparr>))"
proof -
  let ?X = "''64B0F1A2C3D4E5F601234502''"
  let ?req = "\<lparr> param_id = id_bob, body_permissions = Some [?X] \<rparr>"
  have v: "isValidObjectId ?X" by (simp add: isValidObjectId_def isHexDigit_def)
  have l: "toLowerCase ?X = id_read"
    by (simp add: toLowerCase_def toLowerCaseChar_def id_read_def)
  have c: "castObjectId ?X = Some id_read" by (simp add: castObjectId_def v l)
  have m: "id_read \<in> set (granted bob)" by (simp add: bob_def)
  have vp: "isValidObjectId (param_id ?req)" by (simp add: example_ids_valid)
  have b: "body_permissions ?req = Some [?X]" by simp
  have ne: "[?X] \<noteq> []" by simp
  have va: "filter (\<lambda>permId. \<not> isValidObjectId permId) [?X] = []" using v by simp
  have f: "findById exampleDb (param_id ?req) = Some bob"
    by (simp add: findById_def example_ids_cast) (simp add: example_docs example_ids)
  have ex: "length (filter (\<lambda>p. Some (perm_id p) \<in> set (map castObjectId [?X]))
                      (db_permissions exampleDb)) = length [?X]"
    by (simp add: c) (simp add: example_docs example_ids)
  have new: "filter (\<lambda>permId. \<not> list_ex (\<lambda>existingId. toString existingId = permId) (granted bob))
               [?X] = [?X]"
    by (simp add: bob_def toString_def example_ids)
  have rv: "filter (\<lambda>permId. toString permId \<notin> set [?X]) (revoked bob) = [id_read]"
    by (simp add: bob_def toString_def example_ids)
  have h1: "showNat (length [?X]) @ '' custom permissions granted successfully''
              = ''1 custom permissions granted successfully''"
    by simp
  have h2: "bob\<lparr> granted := granted bob @ map toLowerCase [?X],
                 revoked := filter (\<lambda>permId. toString permId \<notin> set [?X]) (revoked bob) \<rparr>
              = bob\<lparr> granted := [id_delete, id_read, id_read], revoked := [id_read] \<rparr>"
    unfolding rv by (simp add: l bob_def)
  have g: "grantCustomPermissions exampleDb ?req
       = (Sent (sendSuccessResponse 200 ''1 custom permissions granted successfully''),
          saveUser exampleDb
            (bob\<lparr> granted := [id_delete, id_read, id_read], revoked := [id_read] \<rparr>))"
    using grantCustomPermissions_success [OF vp b ne va f ex new ne] unfolding h1 h2 .
  have low: "grantCustomPermissions exampleDb
               \<lparr> param_id = id_bob, body_permissions = Some [id_read] \<rparr>
       = (Sent (sendErrorResponse 400
            ''All specified permissions are already granted to this user''), exampleDb)"
    using grant_already_granted_rejected_example by simp
  from c m low g show ?thesis by simp
qed


section \<open>Grant and revoke on ids spelled as stored\<close>

text \<open>
  When the request spells every id as \<^verbatim>\<open>toString()\<close> gives it, the two handlers keep the
  lists apart: a successful grant adds the ids to granted and removes them from revoked,
  a revoke adds them to revoked and removes them from granted.
\<close>

lemma canonical_map: "list_all canonical xs \<Longrightarrow> map toLowerCase xs = xs"
  by (induction xs) (auto simp: canonical_def)

lemma canonical_valid: "list_all canonical xs \<Longrightarrow> filter (\<lambda>x. \<not> isValidObjectId x) xs = []"
  by (induction xs) (auto simp: canonical_def)

lemma canonical_cast: "canonical s \<Longrightarrow> castObjectId s = Some s"
  by (simp add: canonical_def castObjectId_def)

lemma grant_canonical_effect:
  assumes "body_permissions req = Some perms" and "perms \<noteq> []" and "list_all canonical perms"
    and "findById d (param_id req) = Some user"
    and "length (filter (\<lambda>p. Some (perm_id p) \<in> set (map castObjectId perms))
                   (db_permissions d)) = length perms"
    and "\<not> set perms \<subseteq> set (granted user)"
  shows "\<exists>r user'. grantCustomPermissions d req = (Sent r, saveUser d user') \<and> status r = 200
           \<and> user_id user' = user_id user
           \<and> set (granted user') = set (granted user) \<union> set perms
           \<and> set (revoked user') = set (revoked user) - set perms"
proof -
  let ?new = "filter (\<lambda>permId. \<not> list_ex (\<lambda>existingId. toString existingId = permId) (granted user)) perms"
  have n: "set ?new = set perms - set (granted user)"
    by (auto simp: list_ex_iff toString_def)
  with assms(6) have ne: "?new \<noteq> []" by (metis Diff_eq_empty_iff set_empty)
  have "list_all canonical ?new" using assms(3) by (auto simp: list_all_iff)
  then have lo: "map toLowerCase ?new = ?new" by (rule canonical_map)
  have rv: "set (filter (\<lambda>permId. toString permId \<notin> set perms) (revoked user))
              = set (revoked user) - set perms"
    by (auto simp: toString_def)
  note s = grantCustomPermissions_success
             [OF findById_found [OF assms(4)] assms(1,2) canonical_valid [OF assms(3)] assms(4,5) refl ne]
  show ?thesis
    unfolding s lo using n rv by (auto simp: sendSuccessResponse_def)
qed

lemma revoke_canonical_effect:
  assumes "body_permissions req = Some perms" and "perms \<noteq> []" and "list_all canonical perms"
    and "findById d (param_id req) = Some user"
  shows "\<exists>r user'. revokeCustomPermissions d req = (Sent r, saveUser d user') \<and> status r = 200
           \<and> user_id user' = user_id user
           \<and> set (revoked user') = set (revoked user) \<union> set perms
           \<and> set (granted user') = set (granted user) - set perms"
proof -
  let ?new = "filter (\<lambda>permId. \<not> list_ex (\<lambda>existingId. toString existingId = permId) (revoked user)) perms"
  have n: "set ?new = set perms - set (revoked user)"
    by (auto simp: list_ex_iff toString_def)
  have can: "list_all canonical ?new" using assms(3) by (auto simp: list_all_iff)
  then have lo: "map toLowerCase ?new = ?new" by (rule canonical_map)
  have cast: "\<not> list_ex (\<lambda>permId. castObjectId permId = None) ?new"
    using can by (auto simp: list_ex_iff list_all_iff canonical_cast)
  have gr: "set (filter (\<lambda>permId. toString permId \<notin> set perms) (granted user))
              = set (granted user) - set perms"
    by (auto simp: toString_def)
  note s = revokeCustomPermissions_success
             [OF findById_found [OF assms(4)] assms(1,2) assms(4) refl cast]
  show ?thesis
    unfolding s lo using n gr by (auto simp: sendSuccessResponse_def)
qed

lemma grant_rejects_or_succeeds:
  assumes "body_permissions req = Some perms" and "findById d (param_id req) = Some user"
  shows "snd (grantCustomPermissions d req) = d
         \<or> (perms \<noteq> []
             \<and> length (filter (\<lambda>p. Some (perm_id p) \<in> set (map castObjectId perms))
                         (db_permissions d)) = length perms
             \<and> \<not> set perms \<subseteq> set (granted user))"
proof (cases "set perms \<subseteq> set (granted user)")
  case True
  then have "list_all (\<lambda>permId. permId \<in> set (granted user)) perms"
    by (auto simp: list_all_iff)
  then have "filter (\<lambda>permId. \<not> list_ex (\<lambda>existingId. toString existingId = permId) (granted user))
               perms = []"
    by (auto simp: filter_empty_conv list_all_iff list_ex_iff toString_def)
  then show ?thesis
    unfolding grantCustomPermissions_def Let_def using assms by auto
next
  case False
  then show ?thesis
    unfolding grantCustomPermissions_def Let_def using assms by auto
qed

lemma findById_saveUser:
  assumes "findById d i = Some u" and "user_id u' = user_id u"
  shows "findById (saveUser d u') i = Some u'"
proof -
  let ?f = "\<lambda>x. if user_id x = user_id u' then u' else x"
  have "find (\<lambda>x. Some (user_id x) = castObjectId i) (map ?f (db_users d))
          = map_option ?f (find (\<lambda>x. Some (user_id x) = castObjectId i) (db_users d))"
    by (rule find_map_same_key) simp
  then show ?thesis using assms by (simp add: findById_def saveUser_def)
qed

lemma saveUser_permissions: "db_permissions (saveUser d u) = db_permissions d"
  by (simp add: saveUser_def)

text \<open>Both handlers keep disjoint lists disjoint, whether they succeed or refuse.\<close>

lemma grant_canonical_disjoint:
  assumes "body_permissions req = Some perms" and "list_all canonical perms"
    and "findById d (param_id req) = Some user"
    and "set (granted user) \<inter> set (revoked user) = {}"
  shows "\<exists>user'. findById (snd (grantCustomPermissions d req)) (param_id req) = Some user'
           \<and> set (granted user') \<inter> set (revoked user') = {}"
proof -
  from grant_rejects_or_succeeds [OF assms(1,3)]
  consider "snd (grantCustomPermissions d req) = d"
    | "perms \<noteq> []"
      "length (filter (\<lambda>p. Some (perm_id p) \<in> set (map castObjectId perms))
                 (db_permissions d)) = length perms"
      "\<not> set perms \<subseteq> set (granted user)"
    by blast
  then show ?thesis
  proof cases
    case 1
    with assms(3,4) show ?thesis by auto
  next
    case 2
    from grant_canonical_effect [OF assms(1) 2(1) assms(2,3) 2(2,3)]
    obtain r user' where u: "grantCustomPermissions d req = (Sent r, saveUser d user')"
        "user_id user' = user_id user"
        "set (granted user') = set (granted user) \<union> set perms"
        "set (revoked user') = set (revoked user) - set perms"
      by blast
    have "findById (saveUser d user') (param_id req) = Some user'"
      using assms(3) u(2) by (rule findById_saveUser)
    moreover have "set (granted user') \<inter> set (revoked user') = {}"
      using u(3,4) assms(4) by auto
    ultimately show ?thesis using u(1) by auto
  qed
qed

lemma revoke_canonical_disjoint:
  assumes "body_permissions req = Some perms" and "perms \<noteq> []" and "list_all canonical perms"
    and "findById d (param_id req) = Some user"
    and "set (granted user) \<inter> set (revoked user) = {}"
  shows "\<exists>user'. findById (snd (revokeCustomPermissions d req)) (param_id req) = Some user'
           \<and> set (granted user') \<inter> set (revoked user') = {}"
proof -
  from revoke_canonical_effect [OF assms(1,2,3,4)]
  obtain r user' where u: "revokeCustomPermissions d req = (Sent r, saveUser d user')"
      "user_id user' = user_id user"
      "set (revoked user') = set (revoked user) \<union> set perms"
      "set (granted user') = set (granted user) - set perms"
    by blast
  have "findById (saveUser d user') (param_id req) = Some user'"
    using assms(4) u(2) by (rule findById_saveUser)
  moreover have "set (granted user') \<inter> set (revoked user') = {}"
    using u(3,4) assms(5) by auto
  ultimately show ?thesis using u(1) by auto
qed

text \<open>
  The round trip of the specification, for a permission \<open>X\<close> of the catalogue named by
  its stored spelling: after grant \<open>X\<close>, revoke \<open>X\<close>, grant \<open>X\<close> the user has \<open>X\<close> in
  granted and not in revoked, and resolves to it. The first grant may be refused (when
  \<open>X\<close> is granted already); the state after the three requests is the same.
\<close>

lemma populated_ids:
  "perm_id ` set (populatePermissions d ids) = {i \<in> set ids. findPermission d i \<noteq> None}"
proof -
  have "\<And>i p. findPermission d i = Some p \<Longrightarrow> perm_id p = i" by (rule findPermission_id)
  then show ?thesis
    unfolding populatePermissions_set by (auto simp: image_iff)
qed

lemma findPermission_saveUser: "findPermission (saveUser d u) = findPermission d"
  by (rule ext) (simp add: findPermission_def saveUser_def)

lemma grant_keeps_user:
  assumes "body_permissions req = Some perms" and "list_all canonical perms"
    and "findById d (param_id req) = Some user"
  shows "\<exists>user'. findById (snd (grantCustomPermissions d req)) (param_id req) = Some user'
           \<and> db_permissions (snd (grantCustomPermissions d req)) = db_permissions d"
proof -
  from grant_rejects_or_succeeds [OF assms(1,3)]
  consider "snd (grantCustomPermissions d req) = d"
    | "perms \<noteq> []"
      "length (filter (\<lambda>p. Some (perm_id p) \<in> set (map castObjectId perms))
                 (db_permissions d)) = length perms"
      "\<not> set perms \<subseteq> set (granted user)"
    by blast
  then show ?thesis
  proof cases
    case 1
    with assms(3) show ?thesis by simp
  next
    case 2
    from grant_canonical_effect [OF assms(1) 2(1) assms(2,3) 2(2,3)]
    obtain r user' where u: "grantCustomPermissions d req = (Sent r, saveUser d user')"
        "user_id user' = user_id user"
      by blast
    have "findById (saveUser d user') (param_id req) = Some user'"
      using assms(3) u(2) by (rule findById_saveUser)
    then show ?thesis using u(1) by (auto simp: saveUser_permissions)
  qed
qed

lemma grant_revoke_grant:
  assumes x: "canonical X"
    and cat: "length (filter (\<lambda>p. perm_id p = X) (db_permissions d)) = 1"
    and req: "body_permissions req = Some [X]"
    and usr: "findById d (param_id req) = Some user"
  shows "\<exists>u3. findById (snd (grantCustomPermissions
                          (snd (revokeCustomPermissions
                             (snd (grantCustomPermissions d req)) req)) req))
                (param_id req) = Some u3
           \<and> X \<in> set (granted u3) \<and> X \<notin> set (revoked u3)
           \<and> X \<in> perm_id ` set (getAllPermissions
                   (snd (grantCustomPermissions
                          (snd (revokeCustomPermissions
                             (snd (grantCustomPermissions d req)) req)) req)) u3)"
proof -
  let ?d1 = "snd (grantCustomPermissions d req)"
  let ?d2 = "snd (revokeCustomPermissions ?d1 req)"
  let ?d3 = "snd (grantCustomPermissions ?d2 req)"
  have can: "list_all canonical [X]" using x by simp
  have ne: "[X] \<noteq> []" by simp
  from grant_keeps_user [OF req can usr]
  obtain u1 where u1: "findById ?d1 (param_id req) = Some u1"
    and p1: "db_permissions ?d1 = db_permissions d"
    by blast
  from revoke_canonical_effect [OF req ne can u1]
  obtain r2 u2 where u2: "revokeCustomPermissions ?d1 req = (Sent r2, saveUser ?d1 u2)"
      "user_id u2 = user_id u1"
      "set (revoked u2) = set (revoked u1) \<union> set [X]"
      "set (granted u2) = set (granted u1) - set [X]"
    by blast
  have d2: "?d2 = saveUser ?d1 u2" using u2(1) by simp
  have f2: "findById ?d2 (param_id req) = Some u2"
    unfolding d2 using u1 u2(2) by (rule findById_saveUser)
  have p2: "db_permissions ?d2 = db_permissions d"
    unfolding d2 by (simp add: saveUser_permissions p1)
  have ex2: "length (filter (\<lambda>p. Some (perm_id p) \<in> set (map castObjectId [X]))
                       (db_permissions ?d2)) = length [X]"
    unfolding p2 using cat by (simp add: canonical_cast [OF x])
  have ng: "\<not> set [X] \<subseteq> set (granted u2)" using u2(4) by simp
  from grant_canonical_effect [OF req ne can f2 ex2 ng]
  obtain r3 u3 where u3: "grantCustomPermissions ?d2 req = (Sent r3, saveUser ?d2 u3)"
      "user_id u3 = user_id u2"
      "set (granted u3) = set (granted u2) \<union> set [X]"
      "set (revoked u3) = set (revoked u2) - set [X]"
    by blast
  have d3: "?d3 = saveUser ?d2 u3" using u3(1) by simp
  have f3: "findById ?d3 (param_id req) = Some u3"
    unfolding d3 using f2 u3(2) by (rule findById_saveUser)
  have g: "X \<in> set (granted u3)" and r: "X \<notin> set (revoked u3)"
    using u3(3,4) by simp_all
  have "filter (\<lambda>p. perm_id p = X) (db_permissions d) \<noteq> []" using cat by auto
  then obtain p where "p \<in> set (db_permissions d)" "perm_id p = X"
    by (auto simp: filter_empty_conv)
  then have "find (\<lambda>p. perm_id p = X) (db_permissions d) \<noteq> None"
    by (auto simp: find_None_iff)
  moreover have "db_permissions ?d3 = db_permissions d"
    using d3 p2 by (simp add: saveUser_permissions)
  ultimately have fp: "findPermission ?d3 X \<noteq> None"
    by (simp add: findPermission_def)
  have "X \<in> perm_id ` set (cp_granted (populate ?d3 u3))"
    using g fp by (simp add: populate_def populated_ids)
  moreover have "X \<notin> perm_id ` set (cp_revoked (populate ?d3 u3))"
    using r by (simp add: populate_def populated_ids)
  ultimately have "X \<in> perm_id ` set (getAllPermissions ?d3 u3)"
    unfolding getAllPermissions_ids by blast
  with f3 g r show ?thesis by blast
qed


end
